theory Spec2Isabelle
  imports Main "HOL-Library.AList"
begin

section \<open>Data model of server.js\<close>

text \<open>
  A note object as the handlers build it (server.js, lines 164-172 and 208-216).
  The field \<open>id\<close> is called \<open>nid\<close> here, since \<open>id\<close> is the identity function of HOL.
  Timestamps are the ISO strings of \<open>new Date().toISOString()\<close>.
  Strings are lists of characters; the link pattern only looks at ASCII characters.
\<close>

record note_obj =
  nid :: string
  title :: string
  content :: string
  createdAt :: string
  updatedAt :: string
  links :: "string list"
  backlinks :: "string list"

record template =
  tid :: string
  ttitle :: string
  tcontent :: string

text \<open>
  The document held in db.json. A JavaScript object enumerates its string keys in
  insertion order, so \<open>db.notes\<close> is an association list in that order.
  The fields are called \<open>db_notes\<close> and \<open>db_templates\<close> (\<open>notes\<close> is a keyword of Isabelle).
  The property \<open>templates\<close> may be missing from the document (\<open>undefined\<close>): \<open>None\<close>.
\<close>

record db =
  db_notes :: "(string \<times> note_obj) list"
  db_templates :: "(string \<times> template) list option"

definition lookup :: "db \<Rightarrow> string \<Rightarrow> note_obj option" where
  \<comment> \<open>\<open>db.notes[k]\<close>; \<open>None\<close> is \<open>undefined\<close>\<close>
  "lookup d k = map_of (db_notes d) k"

definition store :: "db \<Rightarrow> string \<Rightarrow> note_obj \<Rightarrow> db" where
  \<comment> \<open>\<open>db.notes[k] = n\<close>, and every assignment to a field of the object \<open>db.notes[k]\<close>\<close>
  "store d k n = d\<lparr>db_notes := AList.update k n (db_notes d)\<rparr>"

definition note_ids :: "db \<Rightarrow> string list" where
  \<comment> \<open>\<open>Object.keys(db.notes)\<close>\<close>
  "note_ids d = map fst (db_notes d)"

definition all_notes :: "db \<Rightarrow> note_obj list" where
  \<comment> \<open>\<open>Object.values(db.notes)\<close>\<close>
  "all_notes d = map snd (db_notes d)"

section \<open>A JavaScript Set of strings\<close>

text \<open>
  A \<open>Set\<close> keeps its members in insertion order and ignores a member added twice;
  \<open>[...s]\<close> and \<open>Array.from(s)\<close> list them in that order.
\<close>

definition set_add :: "string list \<Rightarrow> string \<Rightarrow> string list" where
  "set_add s x = (if x \<in> set s then s else s @ [x])"

definition new_Set :: "string list \<Rightarrow> string list" where
  "new_Set xs = foldl set_add [] xs"

section \<open>parseLinks (lines 44-53)\<close>

text \<open>
  \<open>LINK_REGEX = /\[\[([a-fA-F0-9-]+)\]\]/g\<close>. The class excludes the closing bracket, so
  the greedy group takes the whole run of class characters after the two opening
  brackets and backtracking to a shorter run can never succeed: the pattern matches at a
  position exactly when the run is not empty and two closing brackets follow it.
\<close>

definition link_char :: "char \<Rightarrow> bool" where
  "link_char c = (c \<in> set ''abcdefABCDEF0123456789-'')"

fun match_here :: "string \<Rightarrow> (string \<times> string) option" where
  "match_here (a # b # cs) =
     (if a = CHR ''['' \<and> b = CHR ''['' then
        (let run = takeWhile link_char cs; rest = dropWhile link_char cs in
         if run = [] then None
         else (case rest of
                 c # d # r \<Rightarrow> if c = CHR '']'' \<and> d = CHR '']'' then Some (run, r) else None
               | _ \<Rightarrow> None))
      else None)"
| "match_here _ = None"

text \<open>
  The loop \<open>while ((match = LINK_REGEX.exec(content)) !== null)\<close>: \<open>exec\<close> looks for the
  leftmost match at or after \<open>lastIndex\<close> and moves \<open>lastIndex\<close> behind it; when nothing
  matches it returns \<open>null\<close> and resets \<open>lastIndex\<close> to 0, so that every call of
  parseLinks starts at the beginning of its content. The first argument is the content
  from \<open>lastIndex\<close> on, the second the Set \<open>links\<close>.
\<close>

function exec_loop :: "string \<Rightarrow> string list \<Rightarrow> string list" where
  "exec_loop [] ls = ls"
| "exec_loop (c # cs) ls =
     (case match_here (c # cs) of
        Some (m, r) \<Rightarrow> exec_loop r (set_add ls m)
      | None \<Rightarrow> exec_loop cs ls)"
  by pat_completeness auto
termination
proof (relation "measure (\<lambda>(s, ls). length s)")
  show "wf (measure (\<lambda>(s, ls). length s))" by simp
next
  fix c :: char and cs :: string and ls :: "string list" and p m r
  assume h: "match_here (c # cs) = Some p" "(m, r) = p"
  have "length r < length (c # cs)"
  proof (cases cs)
    case Nil
    with h show ?thesis by simp
  next
    case (Cons b ds)
    have "length (dropWhile link_char ds) \<le> length ds"
      by (rule length_dropWhile_le)
    with h Cons show ?thesis
      by (auto simp: Let_def split: if_splits list.splits)
  qed
  then show "((r, set_add ls m), c # cs, ls) \<in> measure (\<lambda>(s, ls). length s)" by simp
next
  fix c :: char and cs :: string and ls :: "string list"
  show "((cs, ls), c # cs, ls) \<in> measure (\<lambda>(s, ls). length s)" by simp
qed

definition parseLinks :: "string \<Rightarrow> string list" where
  "parseLinks c = exec_loop c []"

section \<open>updateLinks (lines 55-80)\<close>

definition remove_backlink :: "string \<Rightarrow> db \<Rightarrow> string \<Rightarrow> db" where
  \<comment> \<open>body of the loop of lines 64-68\<close>
  "remove_backlink noteId d targetId =
     (case lookup d targetId of
        None \<Rightarrow> d
      | Some t \<Rightarrow> store d targetId (t\<lparr>backlinks := filter (\<lambda>i. i \<noteq> noteId) (backlinks t)\<rparr>))"

definition add_backlink :: "string \<Rightarrow> db \<Rightarrow> string \<Rightarrow> db" where
  \<comment> \<open>body of the loop of lines 72-78\<close>
  "add_backlink noteId d targetId =
     (case lookup d targetId of
        None \<Rightarrow> d
      | Some t \<Rightarrow>
          if targetId \<noteq> noteId then
            (if noteId \<notin> set (backlinks t)
             then store d targetId (t\<lparr>backlinks := backlinks t @ [noteId]\<rparr>)
             else d)
          else d)"

definition set_links :: "db \<Rightarrow> string \<Rightarrow> string list \<Rightarrow> db" where
  \<comment> \<open>\<open>note.links = Array.from(newLinks)\<close>: \<open>note\<close> is the object \<open>db.notes[noteId]\<close>, which
      the loops before may have changed\<close>
  "set_links d noteId ls =
     (case lookup d noteId of None \<Rightarrow> d | Some n \<Rightarrow> store d noteId (n\<lparr>links := ls\<rparr>))"

definition updateLinks :: "string \<Rightarrow> string \<Rightarrow> db \<Rightarrow> db" where
  "updateLinks noteId newContent d =
     (case lookup d noteId of
        None \<Rightarrow> d
      | Some note \<Rightarrow>
          (let oldLinks = new_Set (links note);
               newLinks = new_Set (parseLinks newContent);
               toRemove = filter (\<lambda>i. i \<notin> set newLinks) oldLinks;
               d1 = foldl (remove_backlink noteId) d toRemove;
               toAdd = filter (\<lambda>i. i \<notin> set oldLinks) newLinks;
               d2 = foldl (add_backlink noteId) d1 toAdd
           in set_links d2 noteId newLinks))"

section \<open>Persistence, requests and responses\<close>

text \<open>
  The file db.json: \<open>None\<close> when it does not exist (\<open>ENOENT\<close>). readDB (lines 11-23)
  returns the parsed document; when the file is missing it writes and returns the
  initial document \<open>{ notes: {} }\<close>, which has no property \<open>templates\<close>.
  The result is the document and the file after the call.
\<close>

definition initialDb :: db where
  "initialDb = \<lparr>db_notes = [], db_templates = None\<rparr>"

definition readDB :: "db option \<Rightarrow> db \<times> db option" where
  "readDB file = (case file of None \<Rightarrow> (initialDb, Some initialDb) | Some d \<Rightarrow> (d, Some d))"

text \<open>
  The decoded JSON body of a request: each field is a string or absent.
  A field is used through its truthiness: absent and the empty string are both falsy.
\<close>

record body =
  b_title :: "string option"
  b_content :: "string option"
  b_templateId :: "string option"

definition truthy :: "string option \<Rightarrow> bool" where
  "truthy f = (case f of None \<Rightarrow> False | Some s \<Rightarrow> s \<noteq> [])"

definition falsy :: "string option \<Rightarrow> bool" where
  \<comment> \<open>\<open>!f\<close>\<close>
  "falsy f = (\<not> truthy f)"

definition or_else :: "string option \<Rightarrow> string \<Rightarrow> string" where
  \<comment> \<open>\<open>f || dflt\<close>\<close>
  "or_else f dflt = (case f of None \<Rightarrow> dflt | Some s \<Rightarrow> if s \<noteq> [] then s else dflt)"

datatype payload =
  Message string
| NoteJson note_obj
| TemplateJson template
| NoBody

type_synonym response = "nat \<times> payload"

text \<open>
  What a handler gets from outside: the value of \<open>randomUUID()\<close> and the readings of the
  clock (\<open>new Date().toISOString()\<close>), numbered in the order the handler takes them.
\<close>

record env =
  uuid :: string
  clock :: "nat \<Rightarrow> string"

definition server_error :: response where
  \<comment> \<open>the \<open>catch\<close> of lines 266-269\<close>
  "server_error = (500, Message ''Internal Server Error'')"

section \<open>The handlers\<close>

text \<open>
  Every handler runs after \<open>const db = await readDB()\<close> (line 90) and returns its response
  and the file afterwards. Reading a property of \<open>undefined\<close> throws a TypeError, which
  the \<open>catch\<close> turns into status 500; the document in memory is then dropped.
  Note ids are taken not to be names of properties of \<open>Object.prototype\<close>
  (no identifier matched by the link pattern is one).
\<close>

definition post_template :: "env \<Rightarrow> body \<Rightarrow> db option \<Rightarrow> response \<times> db option" where
  \<comment> \<open>POST /api/templates, lines 95-105\<close>
  "post_template e b file =
     (let (d, file1) = readDB file in
      if falsy (b_title b) \<or> falsy (b_content b)
      then ((400, Message ''Template title and content are required.''), file1)
      else
        (let newTemplate = \<lparr>tid = uuid e, ttitle = or_else (b_title b) [],
                             tcontent = or_else (b_content b) []\<rparr>
         in case db_templates d of
              None \<Rightarrow> (server_error, file1)
            | Some ts \<Rightarrow>
                (let d' = d\<lparr>db_templates := Some (AList.update (uuid e) newTemplate ts)\<rparr>
                 in ((201, TemplateJson newTemplate), Some d'))))"

definition today :: "env \<Rightarrow> string" where
  \<comment> \<open>\<open>new Date().toISOString().split('T')[0]\<close>\<close>
  "today e = takeWhile (\<lambda>c. c \<noteq> CHR ''T'') (clock e 0)"

definition dailyNoteTitle :: "env \<Rightarrow> string" where
  "dailyNoteTitle e = ''Daily Note: '' @ today e"

definition dailyNote :: "env \<Rightarrow> note_obj" where
  \<comment> \<open>the object of lines 164-172\<close>
  "dailyNote e = \<lparr>nid = uuid e, title = dailyNoteTitle e,
                   content = ''# '' @ today e @ [CHR 0x0A, CHR 0x0A],
                   createdAt = clock e 1, updatedAt = clock e 2,
                   links = [], backlinks = []\<rparr>"

definition get_daily :: "env \<Rightarrow> db option \<Rightarrow> response \<times> db option" where
  \<comment> \<open>GET /api/notes/daily, lines 153-177\<close>
  "get_daily e file =
     (let (d, file1) = readDB file in
      case find (\<lambda>n. title n = dailyNoteTitle e) (all_notes d) of
        Some n \<Rightarrow> ((200, NoteJson n), file1)
      | None \<Rightarrow> ((201, NoteJson (dailyNote e)), Some (store d (uuid e) (dailyNote e))))"

definition newNote :: "env \<Rightarrow> string \<Rightarrow> string \<Rightarrow> note_obj" where
  \<comment> \<open>the object of lines 208-216, for a title and a content\<close>
  "newNote e ttl c = \<lparr>nid = uuid e, title = ttl, content = c,
                       createdAt = clock e 0, updatedAt = clock e 1,
                       links = [], backlinks = []\<rparr>"

definition post_note :: "env \<Rightarrow> body \<Rightarrow> db option \<Rightarrow> response \<times> db option" where
  \<comment> \<open>POST /api/notes, lines 187-221\<close>
  "post_note e b file =
     (let (d, file1) = readDB file in
      if falsy (b_title b) then ((400, Message ''Title is required.''), file1)
      else
        (case (if truthy (b_templateId b)
               then (case db_templates d of
                       None \<Rightarrow> Inl server_error
                     | Some ts \<Rightarrow>
                         (case map_of ts (or_else (b_templateId b) []) of
                            Some t \<Rightarrow> Inr (tcontent t)
                          | None \<Rightarrow> Inl (404, Message ''Template not found.'')))
               else Inr (or_else (b_content b) []))
         of
           Inl r \<Rightarrow> (r, file1)
         | Inr noteContent \<Rightarrow>
             if noteContent = [] \<and> falsy (b_content b)
             then ((400, Message ''Content is required if not using a template.''), file1)
             else
               (let d1 = store d (uuid e) (newNote e (or_else (b_title b) []) noteContent);
                    d2 = updateLinks (uuid e) noteContent d1
                in case lookup d2 (uuid e) of
                     Some n \<Rightarrow> ((201, NoteJson n), Some d2)
                   | None \<Rightarrow> (server_error, file1))))"

definition put_note :: "env \<Rightarrow> string \<Rightarrow> body \<Rightarrow> db option \<Rightarrow> response \<times> db option" where
  \<comment> \<open>PUT /api/notes/:id, lines 224-242\<close>
  "put_note e i b file =
     (let (d, file1) = readDB file in
      case lookup d i of
        None \<Rightarrow> ((404, Message ''Note not found.''), file1)
      | Some note \<Rightarrow>
          (let d1 = store d i (note\<lparr>title := or_else (b_title b) (title note)\<rparr>);
               newContent = or_else (b_content b) (content note);
               d2 = (if truthy (b_content b) then updateLinks i newContent d1 else d1)
           in case lookup d2 i of
                Some n \<Rightarrow>
                  (let n' = n\<lparr>content := newContent, updatedAt := clock e 0\<rparr>
                   in ((200, NoteJson n'), Some (store d2 i n')))
              | None \<Rightarrow> (server_error, file1)))"

definition unlink :: "string \<Rightarrow> db \<Rightarrow> string \<Rightarrow> db" where
  \<comment> \<open>body of the loop of lines 252-256\<close>
  "unlink i d backlinkId =
     (case lookup d backlinkId of
        None \<Rightarrow> d
      | Some n \<Rightarrow> store d backlinkId (n\<lparr>links := filter (\<lambda>linkId. linkId \<noteq> i) (links n)\<rparr>))"

definition delete_note :: "string \<Rightarrow> db option \<Rightarrow> response \<times> db option" where
  \<comment> \<open>DELETE /api/notes/:id, lines 245-261\<close>
  "delete_note i file =
     (let (d, file1) = readDB file in
      case lookup d i of
        None \<Rightarrow> ((404, Message ''Note not found.''), file1)
      | Some noteToDelete \<Rightarrow>
          (let d1 = foldl (unlink i) d (backlinks noteToDelete);
               d2 = d1\<lparr>db_notes := AList.delete i (db_notes d1)\<rparr>
           in ((204, NoBody), Some d2)))"




section \<open>Predicates on the store\<close>

text \<open>
  What updateLinks does to the note stored under \<open>k\<close>, when it runs for the note \<open>a\<close>
  whose links were \<open>old\<close> and whose new content extracts to \<open>new\<close>. This is a summary
  used in the proofs; lemma \<open>lookup_updateLinks\<close> shows that updateLinks computes it.
\<close>

definition relinked ::
  "string \<Rightarrow> string list \<Rightarrow> string list \<Rightarrow> string \<Rightarrow> note_obj \<Rightarrow> note_obj" where
  "relinked a old new k n =
     n\<lparr>links := (if k = a then new else links n),
       backlinks :=
         (if k \<in> set old \<and> k \<notin> set new then filter (\<lambda>i. i \<noteq> a) (backlinks n)
          else if k \<in> set new \<and> k \<notin> set old \<and> k \<noteq> a \<and> a \<notin> set (backlinks n)
          then backlinks n @ [a]
          else backlinks n)\<rparr>"



text \<open>The same for pairs of two different notes only.\<close>

definition symmetric :: "db \<Rightarrow> bool" where
  "symmetric d =
     list_all (\<lambda>A. list_all (\<lambda>B. nid A \<noteq> nid B \<longrightarrow>
                                (nid B \<in> set (links A)) = (nid A \<in> set (backlinks B)))
                 (all_notes d)) (all_notes d)"

text \<open>
  An identifier that occurs nowhere in the store: it is no key, and no note lists it
  among its links or backlinks.
\<close>

definition unused :: "string \<Rightarrow> db \<Rightarrow> bool" where
  "unused i d =
     (i \<notin> set (note_ids d) \<and>
      list_all (\<lambda>n. i \<notin> set (links n) \<and> i \<notin> set (backlinks n)) (all_notes d))"


section \<open>Example data\<close>

definition env_of :: "string \<Rightarrow> env" where
  "env_of i = \<lparr>uuid = i, clock = (\<lambda>_. ''2024-01-02T03:04:05.000Z'')\<rparr>"

definition json :: "string \<Rightarrow> string \<Rightarrow> body" where
  \<comment> \<open>the body \<open>{"title": t, "content": c}\<close>\<close>
  "json t c = \<lparr>b_title = Some t, b_content = Some c, b_templateId = None\<rparr>"

definition plain :: "string \<Rightarrow> string \<Rightarrow> string list \<Rightarrow> string list \<Rightarrow> note_obj" where
  \<comment> \<open>a note with the given id, content, links and backlinks\<close>
  "plain i c ls bs = \<lparr>nid = i, title = ''t'', content = c,
                      createdAt = ''2024-01-02T03:04:05.000Z'',
                      updatedAt = ''2024-01-02T03:04:05.000Z'',
                      links = ls, backlinks = bs\<rparr>"

definition store_of :: "note_obj list \<Rightarrow> db" where
  "store_of ns = \<lparr>db_notes = map (\<lambda>n. (nid n, n)) ns, db_templates = None\<rparr>"

section \<open>Properties of parseLinks\<close>

lemma set_add_distinct: "distinct s \<Longrightarrow> distinct (set_add s x)"
  by (simp add: set_add_def)

lemma set_set_add: "set (set_add s x) = insert x (set s)"
  by (auto simp: set_add_def)

lemma exec_loop_distinct: "distinct ls \<Longrightarrow> distinct (exec_loop c ls)"
proof (induction c ls rule: exec_loop.induct)
  case (1 ls)
  then show ?case by simp
next
  case (2 c cs ls)
  show ?case
  proof (cases "match_here (c # cs)")
    case None
    with 2 show ?thesis by simp
  next
    case (Some p)
    obtain m r where p: "p = (m, r)" by (cases p)
    from 2(3) have "distinct (set_add ls m)" by (rule set_add_distinct)
    with 2(2) Some p show ?thesis by simp
  qed
qed

lemma parseLinks_distinct: "distinct (parseLinks c)"
  by (simp add: parseLinks_def exec_loop_distinct)

lemma not_link_char_bracket: "\<not> link_char CHR '']''"
  by (simp add: link_char_def)

lemma match_here_marker:
  assumes "m \<noteq> []" and "list_all link_char m"
  shows "match_here (''[['' @ m @ '']]'' @ r) = Some (m, r)"
proof -
  from assms(2) have all: "\<forall>x\<in>set m. link_char x" by (simp add: list_all_iff)
  have tw: "takeWhile link_char (m @ '']]'' @ r) = m"
    using all by (simp add: takeWhile_append2 not_link_char_bracket)
  have dw: "dropWhile link_char (m @ '']]'' @ r) = '']]'' @ r"
    using all by (simp add: dropWhile_append2 not_link_char_bracket)
  show ?thesis using assms(1) tw dw by (simp add: Let_def)
qed

lemma exec_loop_marker:
  assumes "m \<noteq> []" and "list_all link_char m"
  shows "exec_loop (''[['' @ m @ '']]'' @ r) ls = exec_loop r (set_add ls m)"
proof -
  have "exec_loop (CHR ''['' # (CHR ''['' # m @ '']]'' @ r)) ls = exec_loop r (set_add ls m)"
    using match_here_marker [OF assms, of r] by (simp del: match_here.simps)
  then show ?thesis by simp
qed

lemma exec_loop_skip: "c \<noteq> CHR ''['' \<Longrightarrow> exec_loop (c # cs) ls = exec_loop cs ls"
  by (cases cs) simp_all

lemma parseLinks_example:
  assumes "id1 \<noteq> []" "list_all link_char id1" "id2 \<noteq> []" "list_all link_char id2"
    and "id1 \<noteq> id2"
  shows "parseLinks (''[['' @ id1 @ '']] text [['' @ id1 @ '']] [['' @ id2 @ '']]'') = [id1, id2]"
proof -
  note m1 = exec_loop_marker [OF assms(1,2)]
  note m2 = exec_loop_marker [OF assms(3,4)]
  have "exec_loop (''[['' @ id2 @ '']]'' @ []) [id1] = set_add [id1] id2"
    by (simp only: m2 exec_loop.simps)
  then have 1: "exec_loop (''[['' @ id2 @ '']]'') [id1] = [id1, id2]"
    using assms(5) by (simp add: set_add_def del: exec_loop.simps)
  have "exec_loop (''[['' @ id1 @ '']]'' @ ('' [['' @ id2 @ '']]'')) [id1]
        = exec_loop ('' [['' @ id2 @ '']]'') (set_add [id1] id1)"
    by (simp only: m1)
  then have 2: "exec_loop (''[['' @ id1 @ '']] [['' @ id2 @ '']]'') [id1] = [id1, id2]"
    using 1 by (simp add: set_add_def exec_loop_skip del: exec_loop.simps)
  have "exec_loop (''[['' @ id1 @ '']]'' @ ('' text [['' @ id1 @ '']] [['' @ id2 @ '']]'')) []
        = exec_loop ('' text [['' @ id1 @ '']] [['' @ id2 @ '']]'') (set_add [] id1)"
    by (simp only: m1)
  then have "exec_loop (''[['' @ id1 @ '']] text [['' @ id1 @ '']] [['' @ id2 @ '']]'') []
             = [id1, id2]"
    using 2 by (simp add: set_add_def exec_loop_skip del: exec_loop.simps)
  then show ?thesis by (simp only: parseLinks_def)
qed

text \<open>
  Claim C6 (extractor set semantics). parseLinks never returns an identifier twice, for
  any content. For two different identifiers \<open>id1\<close> and \<open>id2\<close> (non-empty, made of the
  characters of the link pattern), the content \<open>[[id1]] text [[id1]] [[id2]]\<close> extracts
  to exactly the two members \<open>id1\<close> and \<open>id2\<close>.
\<close>

theorem C6_extractor_set_semantics:
  "distinct (parseLinks c) \<and>
   (id1 \<noteq> [] \<and> list_all link_char id1 \<and> id2 \<noteq> [] \<and> list_all link_char id2 \<and> id1 \<noteq> id2
    \<longrightarrow> parseLinks (''[['' @ id1 @ '']] text [['' @ id1 @ '']] [['' @ id2 @ '']]'') = [id1, id2])"
  using parseLinks_distinct [of c] parseLinks_example [of id1 id2] by blast

theorem C6_extractor_set_semantics_witness:
  "distinct (parseLinks ''[[a1]] text [[a1]] [[b2]]'') \<and>
   ''a1'' \<noteq> [] \<and> list_all link_char ''a1'' \<and> ''b2'' \<noteq> [] \<and> list_all link_char ''b2''
   \<and> ''a1'' \<noteq> ''b2''
   \<and> parseLinks ''[[a1]] text [[a1]] [[b2]]'' = [''a1'', ''b2'']"
  using C6_extractor_set_semantics [of "''[[a1]] text [[a1]] [[b2]]''" "''a1''" "''b2''"]
  by (simp add: link_char_def)

section \<open>What updateLinks does to each note\<close>

lemma lookup_store: "lookup (store d k n) k' = (if k' = k then Some n else lookup d k')"
  by (simp add: lookup_def store_def update_conv')

lemma set_foldl_set_add: "set (foldl set_add acc xs) = set acc \<union> set xs"
  by (induction xs arbitrary: acc) (auto simp: set_set_add)

lemma distinct_foldl_set_add: "distinct acc \<Longrightarrow> distinct (foldl set_add acc xs)"
  by (induction xs arbitrary: acc) (auto simp: set_add_distinct)

lemma foldl_set_add_distinct: "distinct (acc @ xs) \<Longrightarrow> foldl set_add acc xs = acc @ xs"
proof (induction xs arbitrary: acc)
  case Nil
  then show ?case by simp
next
  case (Cons x xs)
  from Cons.prems have "set_add acc x = acc @ [x]" by (simp add: set_add_def)
  moreover from Cons.prems have "distinct ((acc @ [x]) @ xs)" by simp
  ultimately show ?case using Cons.IH [of "acc @ [x]"] by simp
qed

lemma set_new_Set: "set (new_Set xs) = set xs"
  by (simp add: new_Set_def set_foldl_set_add)

lemma distinct_new_Set: "distinct (new_Set xs)"
  by (simp add: new_Set_def distinct_foldl_set_add)

lemma new_Set_distinct_id: "distinct xs \<Longrightarrow> new_Set xs = xs"
  using foldl_set_add_distinct [of "[]" xs] by (simp add: new_Set_def)

lemma new_Set_parseLinks: "new_Set (parseLinks c) = parseLinks c"
  by (rule new_Set_distinct_id) (rule parseLinks_distinct)

lemma lookup_remove_backlink:
  "lookup (remove_backlink a d t) k =
     (if k = t then map_option (\<lambda>n. n\<lparr>backlinks := filter (\<lambda>i. i \<noteq> a) (backlinks n)\<rparr>) (lookup d k)
      else lookup d k)"
  by (simp add: remove_backlink_def lookup_store split: option.splits)

lemma remove_twice:
  "map_option (\<lambda>n. n\<lparr>backlinks := filter (\<lambda>i. i \<noteq> a) (backlinks n)\<rparr>)
     (map_option (\<lambda>n. n\<lparr>backlinks := filter (\<lambda>i. i \<noteq> a) (backlinks n)\<rparr>) x) =
   map_option (\<lambda>n. n\<lparr>backlinks := filter (\<lambda>i. i \<noteq> a) (backlinks n)\<rparr>) x"
  by (cases x) simp_all

lemma lookup_remove_loop:
  "lookup (foldl (remove_backlink a) d ts) k =
     (if k \<in> set ts then map_option (\<lambda>n. n\<lparr>backlinks := filter (\<lambda>i. i \<noteq> a) (backlinks n)\<rparr>) (lookup d k)
      else lookup d k)"
proof (induction ts arbitrary: d)
  case Nil
  then show ?case by simp
next
  case (Cons t ts)
  show ?case by (simp add: Cons.IH lookup_remove_backlink remove_twice)
qed

lemma lookup_add_backlink:
  "lookup (add_backlink a d t) k =
     (if k = t \<and> k \<noteq> a
      then map_option (\<lambda>n. if a \<in> set (backlinks n) then n else n\<lparr>backlinks := backlinks n @ [a]\<rparr>) (lookup d k)
      else lookup d k)"
proof (cases "lookup d t")
  case None
  then show ?thesis by (auto simp: add_backlink_def)
next
  case (Some n)
  then show ?thesis by (simp add: add_backlink_def lookup_store)
qed

lemma add_twice:
  "map_option (\<lambda>n. if a \<in> set (backlinks n) then n else n\<lparr>backlinks := backlinks n @ [a]\<rparr>)
     (map_option (\<lambda>n. if a \<in> set (backlinks n) then n else n\<lparr>backlinks := backlinks n @ [a]\<rparr>) x) =
   map_option (\<lambda>n. if a \<in> set (backlinks n) then n else n\<lparr>backlinks := backlinks n @ [a]\<rparr>) x"
  by (cases x) simp_all

lemma lookup_add_loop:
  "lookup (foldl (add_backlink a) d ts) k =
     (if k \<in> set ts \<and> k \<noteq> a
      then map_option (\<lambda>n. if a \<in> set (backlinks n) then n else n\<lparr>backlinks := backlinks n @ [a]\<rparr>) (lookup d k)
      else lookup d k)"
proof (induction ts arbitrary: d)
  case Nil
  then show ?case by simp
next
  case (Cons t ts)
  show ?case by (simp add: Cons.IH lookup_add_backlink add_twice)
qed

lemma lookup_set_links:
  "lookup (set_links d a ls) k =
     (if k = a then map_option (\<lambda>n. n\<lparr>links := ls\<rparr>) (lookup d k) else lookup d k)"
  by (simp add: set_links_def lookup_store split: option.splits)

lemma lookup_updateLinks:
  assumes "lookup d a = Some A"
  shows "lookup (updateLinks a c d) k = map_option (relinked a (links A) (parseLinks c) k) (lookup d k)"
proof -
  define old where "old = links A"
  define new where "new = parseLinks c"
  define d1 where "d1 = foldl (remove_backlink a) d (filter (\<lambda>i. i \<notin> set new) (new_Set old))"
  define d2 where "d2 = foldl (add_backlink a) d1 (filter (\<lambda>i. i \<notin> set old) new)"
  have u: "updateLinks a c d = set_links d2 a new"
    using assms
    by (simp add: updateLinks_def Let_def d2_def d1_def old_def new_def new_Set_parseLinks
        set_new_Set)
  have l1: "lookup d1 k =
     (if k \<in> set old \<and> k \<notin> set new
      then map_option (\<lambda>n. n\<lparr>backlinks := filter (\<lambda>i. i \<noteq> a) (backlinks n)\<rparr>) (lookup d k)
      else lookup d k)" for k
    by (simp add: d1_def lookup_remove_loop set_new_Set)
  have l2: "lookup d2 k =
     (if k \<in> set new \<and> k \<notin> set old \<and> k \<noteq> a
      then map_option (\<lambda>n. if a \<in> set (backlinks n) then n
                            else n\<lparr>backlinks := backlinks n @ [a]\<rparr>) (lookup d1 k)
      else lookup d1 k)" for k
    by (simp add: d2_def lookup_add_loop)
  have l3: "lookup (set_links d2 a new) k =
     (if k = a then map_option (\<lambda>n. n\<lparr>links := new\<rparr>) (lookup d2 k) else lookup d2 k)" for k
    by (rule lookup_set_links)
  show ?thesis
  proof (cases "lookup d k")
    case None
    with assms have "k \<noteq> a" by auto
    with None show ?thesis by (simp add: u l3 l2 l1)
  next
    case (Some n)
    show ?thesis
    proof (cases "k = a")
      case True
      with Some assms have "lookup d a = Some n" by simp
      then show ?thesis
        unfolding True
        by (simp add: u l3 l2 l1 relinked_def old_def [symmetric] new_def [symmetric])
    next
      case False
      with Some show ?thesis
        by (simp add: u l3 l2 l1 relinked_def old_def [symmetric] new_def [symmetric])
    qed
  qed
qed

lemma updateLinks_absent: "lookup d a = None \<Longrightarrow> updateLinks a c d = d"
  by (simp add: updateLinks_def)

lemma store_same: "lookup d k = Some n \<Longrightarrow> store d k n = d"
  by (simp add: lookup_def store_def update_triv)


section \<open>Keys and symmetry, note by note\<close>









section \<open>The invariants are kept by every operation\<close>











lemma lookup_unlink:
  "lookup (unlink i d t) k =
     (if k = t then map_option (\<lambda>n. n\<lparr>links := filter (\<lambda>l. l \<noteq> i) (links n)\<rparr>) (lookup d k)
      else lookup d k)"
  by (simp add: unlink_def lookup_store split: option.splits)

lemma lookup_unlink_loop:
  "lookup (foldl (unlink i) d ts) k =
     (if k \<in> set ts then map_option (\<lambda>n. n\<lparr>links := filter (\<lambda>l. l \<noteq> i) (links n)\<rparr>) (lookup d k)
      else lookup d k)"
proof (induction ts arbitrary: d)
  case Nil
  then show ?case by simp
next
  case (Cons t ts)
  show ?case
    by (cases "lookup d k") (auto simp: Cons.IH lookup_unlink)
qed

lemma lookup_deleted:
  "lookup (d\<lparr>db_notes := AList.delete i (db_notes d)\<rparr>) k = (if k = i then None else lookup d k)"
  by (simp add: lookup_def delete_conv')


lemma delete_note_found:
  assumes "lookup d i = Some A"
  shows "delete_note i (Some d) =
     ((204, NoBody),
      Some ((foldl (unlink i) d (backlinks A))\<lparr>db_notes :=
              AList.delete i (db_notes (foldl (unlink i) d (backlinks A)))\<rparr>))"
  using assms by (simp add: delete_note_def readDB_def Let_def)


lemma lookup_delete_note:
  assumes "lookup d i = Some A" and "delete_note i (Some d) = (r, Some d')"
  shows "lookup d' k =
     (if k = i then None
      else if k \<in> set (backlinks A)
      then map_option (\<lambda>n. n\<lparr>links := filter (\<lambda>l. l \<noteq> i) (links n)\<rparr>) (lookup d k)
      else lookup d k)"
  using assms(2) by (auto simp: delete_note_found [OF assms(1)] lookup_deleted lookup_unlink_loop)



section \<open>The handlers, case by case\<close>













section \<open>Where a backlink can come from\<close>









section \<open>Evaluating the examples\<close>

lemmas ev_defs = post_note_def put_note_def delete_note_def get_daily_def post_template_def
  readDB_def initialDb_def env_of_def json_def plain_def store_of_def truthy_def falsy_def
  or_else_def
  newNote_def dailyNote_def dailyNoteTitle_def today_def server_error_def
  updateLinks_def lookup_def store_def set_links_def remove_backlink_def add_backlink_def unlink_def
  new_Set_def set_add_def parseLinks_def link_char_def Let_def
  note_ids_def all_notes_def




lemma unused_first: "unused ''a1'' initialDb"
  by (simp add: unused_def ev_defs)



section \<open>The claims on updateLinks and on the graph\<close>




text \<open>
  Claim C7 (idempotent re-apply). Running updateLinks a second time with the same note
  and content changes nothing: the store after two runs is the store after one run, so
  that every note has the same links and backlinks.
\<close>

theorem C7_idempotent_reapply:
  "updateLinks a c (updateLinks a c d) = updateLinks a c d"
proof (cases "lookup d a")
  case None
  then show ?thesis by (simp add: updateLinks_absent)
next
  case (Some A)
  define d1 where "d1 = updateLinks a c d"
  define A1 where "A1 = relinked a (links A) (parseLinks c) a A"
  have l1: "lookup d1 a = Some A1"
    using Some by (simp add: d1_def A1_def lookup_updateLinks [OF Some])
  have links1: "links A1 = parseLinks c"
    by (simp add: A1_def relinked_def)
  have "updateLinks a c d1 = set_links d1 a (parseLinks c)"
    using l1 links1 by (simp add: updateLinks_def Let_def new_Set_parseLinks)
  also have "\<dots> = store d1 a (A1\<lparr>links := parseLinks c\<rparr>)"
    using l1 by (simp add: set_links_def)
  also have "A1\<lparr>links := parseLinks c\<rparr> = A1"
    using links1 by simp
  also have "store d1 a A1 = d1"
    using l1 by (rule store_same)
  finally show ?thesis by (simp add: d1_def)
qed

text \<open>
  Claim C8 (references mirror the latest content). For a note that is in the store,
  updateLinks leaves as its links exactly what parseLinks extracts from the new content.
\<close>

theorem C8_links_mirror_content:
  "lookup d a = Some A \<Longrightarrow> map_option links (lookup (updateLinks a c d) a) = Some (parseLinks c)"
proof -
  assume l: "lookup d a = Some A"
  have "lookup (updateLinks a c d) a = Some (relinked a (links A) (parseLinks c) a A)"
    using l by (simp add: lookup_updateLinks [OF l])
  moreover have "links (relinked a (links A) (parseLinks c) a A) = parseLinks c"
    by (simp add: relinked_def)
  ultimately show ?thesis by simp
qed

theorem C8_links_mirror_content_witness:
  "lookup (store_of [plain ''a1'' ''x'' [''c3''] [], plain ''b2'' ''y'' [] []]) ''a1''
     = Some (plain ''a1'' ''x'' [''c3''] [])
   \<and> map_option links
        (lookup (updateLinks ''a1'' ''see [[b2]] and [[b2]]''
                  (store_of [plain ''a1'' ''x'' [''c3''] [], plain ''b2'' ''y'' [] []])) ''a1'')
     = Some [''b2'']"
proof -
  have l: "lookup (store_of [plain ''a1'' ''x'' [''c3''] [], plain ''b2'' ''y'' [] []]) ''a1''
           = Some (plain ''a1'' ''x'' [''c3''] [])"
    by (simp add: ev_defs)
  have p: "parseLinks ''see [[b2]] and [[b2]]'' = [''b2'']"
    by (simp add: ev_defs)
  from C8_links_mirror_content [OF l, of "''see [[b2]] and [[b2]]''"] l p show ?thesis
    by simp
qed

section \<open>A note and its own identifier\<close>








section \<open>References to notes that do not exist yet\<close>






lemma updateLinks_keeps_missing_backlink:
  assumes "lookup d a = Some A" and "x \<in> set (links A)" and "x \<in> set (parseLinks c)"
  shows "map_option backlinks (lookup (updateLinks a c d) x) = map_option backlinks (lookup d x)"
  using assms(2,3) by (cases "lookup d x") (simp_all add: lookup_updateLinks [OF assms(1)] relinked_def)

section \<open>Deleting a note\<close>

lemma delete_note_unlinks:
  assumes "lookup d i = Some A" and "delete_note i (Some d) = (r, Some d')"
  shows "r = (204, NoBody) \<and> lookup d' i = None \<and>
         (\<forall>k n'. k \<in> set (backlinks A) \<longrightarrow> lookup d' k = Some n' \<longrightarrow> i \<notin> set (links n')) \<and>
         (\<forall>k n'. lookup d' k = Some n' \<longrightarrow> map_option backlinks (lookup d k) = Some (backlinks n'))"
proof -
  from assms(2) have "r = (204, NoBody)"
    by (simp add: delete_note_found [OF assms(1)])
  moreover have "lookup d' i = None"
    by (simp add: lookup_delete_note [OF assms])
  moreover have "\<forall>k n'. k \<in> set (backlinks A) \<longrightarrow> lookup d' k = Some n' \<longrightarrow> i \<notin> set (links n')"
    by (auto simp: lookup_delete_note [OF assms] split: if_splits)
  moreover have "\<forall>k n'. lookup d' k = Some n' \<longrightarrow> map_option backlinks (lookup d k) = Some (backlinks n')"
    by (auto simp: lookup_delete_note [OF assms] split: if_splits)
  ultimately show ?thesis by blast
qed

text \<open>
  Claim C2 (the deletion cascade sweeps both directions) fails on the code. Note \<open>b2\<close>
  references note \<open>a1\<close>, which lists \<open>b2\<close> among its backlinks (the store after the two
  POST requests of lemma \<open>post_second\<close>). DELETE of \<open>b2\<close> answers 204 and removes the
  record, but \<open>a1\<close> still lists \<open>b2\<close> among its backlinks: the handler only walks the
  backlinks of the deleted note (lines 252-256) and never its links.
\<close>

theorem C2_delete_leaves_backlink:
  "delete_note ''b2''
     (Some (store_of [plain ''a1'' ''x'' [] [''b2''], plain ''b2'' ''[[a1]]'' [''a1''] []]))
   = ((204, NoBody), Some (store_of [plain ''a1'' ''x'' [] [''b2'']]))
   \<and> lookup (store_of [plain ''a1'' ''x'' [] [''b2'']]) ''b2'' = None
   \<and> map_option backlinks (lookup (store_of [plain ''a1'' ''x'' [] [''b2'']]) ''a1'')
       = Some [''b2'']"
  by (simp add: ev_defs)

section \<open>The first template\<close>

text \<open>
  Claim C9 (load-store initialisation) fails on the code. When db.json does not exist,
  readDB writes and returns \<open>{ notes: {} }\<close>, a document without the property
  \<open>templates\<close>; the first POST /api/templates with a valid body then reads a property of
  \<open>undefined\<close> (line 102) and is answered with status 500, and no template is stored.
\<close>

theorem C9_first_template_fails:
  "readDB None = (initialDb, Some initialDb)
   \<and> db_templates initialDb = None
   \<and> post_template (env_of ''a1'') (json ''t'' ''c'') None
       = ((500, Message ''Internal Server Error''), Some initialDb)"
  by (simp add: ev_defs)

lemma post_template_without_templates:
  assumes "truthy (b_title b)" and "truthy (b_content b)"
  shows "post_template e b None = (server_error, Some initialDb)"
  using assms by (simp add: post_template_def readDB_def initialDb_def Let_def falsy_def)

lemma post_template_with_templates:
  assumes "truthy (b_title b)" and "truthy (b_content b)" and "db_templates d = Some ts"
  shows "\<exists>t d'. post_template e b (Some d) = ((201, TemplateJson t), Some d')
           \<and> db_templates d' = Some (AList.update (uuid e) t ts) \<and> tid t = uuid e"
  using assms by (simp add: post_template_def readDB_def Let_def falsy_def)

section \<open>Updating a content to one without references\<close>








section \<open>The daily note\<close>

text \<open>
  Claim C10 (the daily-note read creates state). The title is \<open>Daily Note: \<close> followed
  by the date of the clock, that is, its first reading up to the letter \<open>T\<close>. When no
  note of the store has that title, GET /api/notes/daily stores, under the new
  identifier, a note with that title and with empty links and backlinks, writes the
  document and answers 201 with the note; every other key keeps its note. When a note
  has that title, the handler answers 200 with such a note and the document is unchanged.
\<close>

theorem C10_daily_note:
  "dailyNoteTitle e = ''Daily Note: '' @ takeWhile (\<lambda>c. c \<noteq> CHR ''T'') (clock e 0)
   \<and> ((\<forall>n\<in>set (all_notes d). title n \<noteq> dailyNoteTitle e) \<longrightarrow>
        get_daily e (Some d) = ((201, NoteJson (dailyNote e)), Some (store d (uuid e) (dailyNote e)))
        \<and> lookup (store d (uuid e) (dailyNote e)) (uuid e) = Some (dailyNote e)
        \<and> (\<forall>k. k \<noteq> uuid e \<longrightarrow> lookup (store d (uuid e) (dailyNote e)) k = lookup d k)
        \<and> nid (dailyNote e) = uuid e
        \<and> title (dailyNote e) = dailyNoteTitle e
        \<and> links (dailyNote e) = [] \<and> backlinks (dailyNote e) = [])
   \<and> ((\<exists>n\<in>set (all_notes d). title n = dailyNoteTitle e) \<longrightarrow>
        (\<exists>n\<in>set (all_notes d). title n = dailyNoteTitle e
           \<and> get_daily e (Some d) = ((200, NoteJson n), Some d)))"
proof -
  have 1: "dailyNoteTitle e = ''Daily Note: '' @ takeWhile (\<lambda>c. c \<noteq> CHR ''T'') (clock e 0)"
    by (simp add: dailyNoteTitle_def today_def)
  have 2: "get_daily e (Some d) = ((201, NoteJson (dailyNote e)), Some (store d (uuid e) (dailyNote e)))
        \<and> lookup (store d (uuid e) (dailyNote e)) (uuid e) = Some (dailyNote e)
        \<and> (\<forall>k. k \<noteq> uuid e \<longrightarrow> lookup (store d (uuid e) (dailyNote e)) k = lookup d k)
        \<and> nid (dailyNote e) = uuid e
        \<and> title (dailyNote e) = dailyNoteTitle e
        \<and> links (dailyNote e) = [] \<and> backlinks (dailyNote e) = []"
    if none: "\<forall>n\<in>set (all_notes d). title n \<noteq> dailyNoteTitle e"
  proof -
    from none have "find (\<lambda>n. title n = dailyNoteTitle e) (all_notes d) = None"
      by (simp add: find_None_iff)
    then have "get_daily e (Some d)
        = ((201, NoteJson (dailyNote e)), Some (store d (uuid e) (dailyNote e)))"
      by (simp add: get_daily_def readDB_def)
    then show ?thesis by (simp add: lookup_store dailyNote_def)
  qed
  have 3: "\<exists>n\<in>set (all_notes d). title n = dailyNoteTitle e
           \<and> get_daily e (Some d) = ((200, NoteJson n), Some d)"
    if some: "\<exists>n\<in>set (all_notes d). title n = dailyNoteTitle e"
  proof -
    from some obtain n where n: "find (\<lambda>n. title n = dailyNoteTitle e) (all_notes d) = Some n"
      by (cases "find (\<lambda>n. title n = dailyNoteTitle e) (all_notes d)")
        (auto simp: find_None_iff)
    then have "n \<in> set (all_notes d)" "title n = dailyNoteTitle e"
      by (auto simp: find_Some_iff)
    moreover from n have "get_daily e (Some d) = ((200, NoteJson n), Some d)"
      by (simp add: get_daily_def readDB_def)
    ultimately show ?thesis by blast
  qed
  from 1 2 3 show ?thesis by blast
qed


theorem C10_daily_note_witness:
  "find (\<lambda>n. title n = dailyNoteTitle (env_of ''a1'')) (all_notes (store_of [plain ''b2'' ''y'' [] []]))
     = None
   \<and> get_daily (env_of ''a1'') (Some (store_of [plain ''b2'' ''y'' [] []]))
       = ((201, NoteJson (dailyNote (env_of ''a1''))),
          Some (store_of [plain ''b2'' ''y'' [] [], dailyNote (env_of ''a1'')]))
   \<and> title (dailyNote (env_of ''a1'')) = ''Daily Note: 2024-01-02''
   \<and> links (dailyNote (env_of ''a1'')) = [] \<and> backlinks (dailyNote (env_of ''a1'')) = []
   \<and> (\<exists>n\<in>set (all_notes (store_of [plain ''b2'' ''y'' [] [], dailyNote (env_of ''a1'')])).
         title n = dailyNoteTitle (env_of ''c3'')
         \<and> get_daily (env_of ''c3'')
              (Some (store_of [plain ''b2'' ''y'' [] [], dailyNote (env_of ''a1'')]))
            = ((200, NoteJson n), Some (store_of [plain ''b2'' ''y'' [] [], dailyNote (env_of ''a1'')])))"
proof -
  let ?d = "store_of [plain ''b2'' ''y'' [] []]"
  let ?d' = "store_of [plain ''b2'' ''y'' [] [], dailyNote (env_of ''a1'')]"
  have none: "\<forall>n\<in>set (all_notes ?d). title n \<noteq> dailyNoteTitle (env_of ''a1'')"
    by (simp add: ev_defs)
  have some: "\<exists>n\<in>set (all_notes ?d'). title n = dailyNoteTitle (env_of ''c3'')"
    by (simp add: ev_defs)
  have st: "store ?d (uuid (env_of ''a1'')) (dailyNote (env_of ''a1'')) = ?d'"
    by (simp add: ev_defs)
  have f: "find (\<lambda>n. title n = dailyNoteTitle (env_of ''a1'')) (all_notes ?d) = None"
    using none by (simp add: find_None_iff)
  have t: "title (dailyNote (env_of ''a1'')) = ''Daily Note: 2024-01-02''"
    by (simp add: ev_defs)
  from C10_daily_note [of "env_of ''a1''" ?d] none st
  have 1: "get_daily (env_of ''a1'') (Some ?d) = ((201, NoteJson (dailyNote (env_of ''a1''))), Some ?d')"
    "links (dailyNote (env_of ''a1'')) = []" "backlinks (dailyNote (env_of ''a1'')) = []"
    by simp_all
  from C10_daily_note [of "env_of ''c3''" ?d'] some
  have 2: "\<exists>n\<in>set (all_notes ?d'). title n = dailyNoteTitle (env_of ''c3'')
         \<and> get_daily (env_of ''c3'') (Some ?d') = ((200, NoteJson n), Some ?d')"
    by blast
  from f 1 t 2 show ?thesis by (intro conjI)
qed

end
